theory Spec2Isabelle
  imports Complex_Main "HOL-Library.AList"
begin

section \<open>Virtual fence simulator: the simulation and containment engine\<close>

text \<open>
  A shallow embedding of \<^verbatim>\<open>virtual_fence_simulator_polygonal.py\<close>. Python floats are
  modelled as real numbers, Python ints as \<open>int\<close>, exceptions as values of a sum type.
\<close>

subsection \<open>Point in polygon (ray casting)\<close>

datatype error = ZeroDivisionError

type_synonym point = "real \<times> real"

text \<open>
  The body of the \<^verbatim>\<open>for i in range(n)\<close> loop of \<^verbatim>\<open>point_in_polygon\<close>. The
  \<^verbatim>\<open>and\<close> short-circuits: the quotient is only computed for an edge whose end points
  straddle the height \<open>y\<close>, and Python raises where the denominator is zero.
\<close>

definition intersect :: "real \<Rightarrow> real \<Rightarrow> point \<Rightarrow> point \<Rightarrow> error + bool" where
  "intersect x y vi vj =
     (case vi of (xi, yi) \<Rightarrow> case vj of (xj, yj) \<Rightarrow>
        if (yi > y) \<noteq> (yj > y)
        then (if yj - yi + 1 / 10 ^ 12 = 0 then Inl ZeroDivisionError
              else Inr (x < (xj - xi) * (y - yi) / (yj - yi + 1 / 10 ^ 12) + xi))
        else Inr False)"

text \<open>The loop itself: \<open>is\<close> are the indices still to visit, \<open>j\<close> the previous index.\<close>

fun pip_loop :: "real \<Rightarrow> real \<Rightarrow> point list \<Rightarrow> nat list \<Rightarrow> nat \<Rightarrow> bool \<Rightarrow> error + bool" where
  "pip_loop x y poly [] j inside = Inr inside"
| "pip_loop x y poly (i # is) j inside =
     (case intersect x y (poly ! i) (poly ! j) of
        Inl e \<Rightarrow> Inl e
      | Inr c \<Rightarrow> pip_loop x y poly is i (if c then \<not> inside else inside))"

definition point_in_polygon :: "real \<Rightarrow> real \<Rightarrow> point list \<Rightarrow> error + bool" where
  "point_in_polygon x y poly =
     (if poly = [] then Inr True
      else pip_loop x y poly [0 ..< length poly] (length poly - 1) False)"

definition square_fence :: "point list" where
  "square_fence = [(0, 0), (10, 0), (10, 10), (0, 10)]"

subsection \<open>Entities and their motion\<close>

text \<open>
  The ambient random source is an explicit stream of the values of \<^verbatim>\<open>random.random()\<close>;
  \<^verbatim>\<open>random.uniform(a, b)\<close> is \<open>a + (b - a) * random()\<close> and consumes one value.
\<close>

type_synonym rng = "nat \<Rightarrow> real"

definition uniform :: "real \<Rightarrow> real \<Rightarrow> rng \<Rightarrow> real \<times> rng" where
  "uniform a b g = (a + (b - a) * g 0, \<lambda>n. g (Suc n))"

record animal =
  a_id :: int
  a_x :: real
  a_y :: real
  a_vx :: real
  a_vy :: real
  a_base_speed :: real
  a_speed_multiplier :: real
  a_inside :: bool
  a_canvas_obj :: "nat option"

text \<open>\<^verbatim>\<open>Animal.__init__\<close>: a random heading and a random gait in [0.6, 1.8).\<close>

definition Animal_init :: "int \<Rightarrow> real \<Rightarrow> real \<Rightarrow> real \<Rightarrow> rng \<Rightarrow> animal \<times> rng" where
  "Animal_init i px py mult g =
     (case uniform 0 (2 * pi) g of (angle, g1) \<Rightarrow>
      case uniform (6 / 10) (18 / 10) g1 of (bs, g2) \<Rightarrow>
        (\<lparr>a_id = i, a_x = px, a_y = py, a_vx = cos angle, a_vy = sin angle,
          a_base_speed = bs, a_speed_multiplier = mult, a_inside = True,
          a_canvas_obj = None\<rparr>, g2))"

definition hypot :: "real \<Rightarrow> real \<Rightarrow> real" where
  "hypot a b = sqrt (a ^ 2 + b ^ 2)"

text \<open>
  \<^verbatim>\<open>Animal.step\<close> in its three parts: the random wander added to the velocity, the
  renormalisation to the speed with the floor of \<open>1e-6\<close> on the norm, and the integration
  of the position.
\<close>

definition wander :: "animal \<Rightarrow> rng \<Rightarrow> animal \<times> rng" where
  "wander a g =
     (case uniform (- (1 / 4)) (1 / 4) g of (dx, g1) \<Rightarrow>
      case uniform (- (1 / 4)) (1 / 4) g1 of (dy, g2) \<Rightarrow>
        (a\<lparr>a_vx := a_vx a + dx, a_vy := a_vy a + dy\<rparr>, g2))"

definition renormalize :: "real \<Rightarrow> animal \<Rightarrow> animal" where
  "renormalize speed a =
     (let n = max (1 / 10 ^ 6) (hypot (a_vx a) (a_vy a))
      in a\<lparr>a_vx := a_vx a / n * speed, a_vy := a_vy a / n * speed\<rparr>)"

definition step :: "animal \<Rightarrow> rng \<Rightarrow> animal \<times> rng" where
  "step a g =
     (let speed = a_base_speed a * a_speed_multiplier a in
      case wander a g of (a1, g1) \<Rightarrow>
        let a2 = renormalize speed a1
        in (a2\<lparr>a_x := a_x a2 + a_vx a2, a_y := a_y a2 + a_vy a2\<rparr>, g1))"

text \<open>
  The soft bounce of \<^verbatim>\<open>_tick_loop\<close>: four \<^verbatim>\<open>if\<close> statements in sequence, each
  reading what the one before wrote; \<open>w\<close> and \<open>h\<close> are the canvas width and height.
\<close>

definition bounce :: "int \<Rightarrow> int \<Rightarrow> animal \<Rightarrow> animal" where
  "bounce w h a =
     (let a1 = (if a_x a < 5 then a\<lparr>a_x := 5, a_vx := a_vx a * (- (6 / 10))\<rparr> else a);
          a2 = (if a_x a1 > of_int (w - 5)
                then a1\<lparr>a_x := of_int (w - 5), a_vx := a_vx a1 * (- (6 / 10))\<rparr> else a1);
          a3 = (if a_y a2 < 5 then a2\<lparr>a_y := 5, a_vy := a_vy a2 * (- (6 / 10))\<rparr> else a2);
          a4 = (if a_y a3 > of_int (h - 5)
                then a3\<lparr>a_y := of_int (h - 5), a_vy := a_vy a3 * (- (6 / 10))\<rparr> else a3)
      in a4)"

subsection \<open>The application state\<close>

text \<open>
  An alert is \<^verbatim>\<open>(timestamp, id, int(x), int(y), msg)\<close>. The timestamp is read from the wall
  clock and is left out; the message text is fixed by the kind of crossing, the id and the
  truncated position, so the kind stands for it.
\<close>

datatype kind = LEFT | RE_ENTERED

type_synonym alert = "int \<times> int \<times> int \<times> kind"

text \<open>Python's \<^verbatim>\<open>int()\<close> of a float truncates towards zero.\<close>

definition py_int :: "real \<Rightarrow> int" where
  "py_int r = (if 0 \<le> r then \<lfloor>r\<rfloor> else \<lceil>r\<rceil>)"

text \<open>
  The fields of \<^verbatim>\<open>VirtualFenceApp\<close> that the engine reads or writes. Of the Tk canvas only
  its configured size and the number of items created so far are kept: item ids are handed
  out consecutively from 1, and \<^verbatim>\<open>fence_polygon_id\<close> and \<^verbatim>\<open>canvas_obj\<close> hold such ids.
  The registry is a Python dict: an association list in insertion order.
\<close>

record sim_state =
  canvas_width :: int
  canvas_height :: int
  canvas_items :: nat
  canvas_w :: int
  canvas_h :: int
  tick_ms :: int
  init_animal_count :: int
  speed_mul :: real
  animal_size :: int
  fence_color :: string
  draw_mode :: bool
  animals :: "(int \<times> animal) list"
  next_animal_id :: int
  sim_running :: bool
  job :: bool
  alerts :: "alert list"
  polygon_points :: "point list"
  fence_polygon_id :: "nat option"
  status_inside :: int
  status_outside :: int
  rng :: rng

text \<open>Truth value of \<^verbatim>\<open>fence_polygon_id\<close> and \<^verbatim>\<open>canvas_obj\<close>: \<^verbatim>\<open>None\<close> and 0 are false.\<close>

definition truthy :: "nat option \<Rightarrow> bool" where
  "truthy i = (case i of None \<Rightarrow> False | Some n \<Rightarrow> n \<noteq> 0)"

definition update_counts :: "sim_state \<Rightarrow> sim_state" where
  "update_counts st =
     (let ins = int (length (filter (\<lambda>(k, a). a_inside a) (animals st)));
          out = max 0 (int (length (animals st)) - ins)
      in st\<lparr>status_inside := ins, status_outside := out\<rparr>)"

subsection \<open>Drawing and activating the fence\<close>

definition toggle_draw_mode :: "sim_state \<Rightarrow> sim_state" where
  "toggle_draw_mode st =
     (let val = \<not> draw_mode st in
      if val then st\<lparr>draw_mode := val, polygon_points := []\<rparr>
      else st\<lparr>draw_mode := val\<rparr>)"

text \<open>A click at the pixel \<open>(ex, ey)\<close>: a marker, and a line from the second point on.\<close>

definition canvas_click :: "int \<Rightarrow> int \<Rightarrow> sim_state \<Rightarrow> sim_state" where
  "canvas_click ex ey st =
     (if draw_mode st then
        let pts = polygon_points st @ [(of_int ex, of_int ey)];
            c = canvas_items st + (if length pts > 1 then 2 else 1)
        in st\<lparr>polygon_points := pts, canvas_items := c\<rparr>
      else st)"

text \<open>The dialogs an operation shows to the operator are part of its result.\<close>

datatype dialog = Invalid_polygon

definition finish_polygon :: "sim_state \<Rightarrow> dialog option \<times> sim_state" where
  "finish_polygon st =
     (if length (polygon_points st) < 3 then (Some Invalid_polygon, st)
      else
        let c = Suc (canvas_items st)
        in (None, st\<lparr>fence_polygon_id := Some c, canvas_items := c, draw_mode := False\<rparr>))"

definition clear_fence :: "sim_state \<Rightarrow> sim_state" where
  "clear_fence st = st\<lparr>fence_polygon_id := None, polygon_points := []\<rparr>"

subsection \<open>Containment classification and crossing detection\<close>

definition get_active_polygon_points :: "sim_state \<Rightarrow> point list option" where
  "get_active_polygon_points st =
     (if truthy (fence_polygon_id st) \<and> polygon_points st \<noteq> []
      then Some (polygon_points st) else None)"

text \<open>
  The classification of \<^verbatim>\<open>_tick_loop\<close> (\<^verbatim>\<open>inside = True; if self.fence_polygon_id or ...\<close>)
  for an entity at \<open>(px, py)\<close>.
\<close>

definition classify :: "sim_state \<Rightarrow> real \<Rightarrow> real \<Rightarrow> error + bool" where
  "classify st px py =
     (if truthy (fence_polygon_id st) \<or> length (polygon_points st) \<ge> 3 then
        let poly = (if polygon_points st \<noteq> [] \<and> fence_polygon_id st = None
                    then Some (polygon_points st)
                    else get_active_polygon_points st)
        in (case poly of
              None \<Rightarrow> Inr True
            | Some ps \<Rightarrow> if ps = [] then Inr True else point_in_polygon px py ps)
      else Inr True)"

text \<open>
  The two \<^verbatim>\<open>if\<close> statements that compare the fresh containment value \<open>ins\<close> with the
  stored one, in sequence.
\<close>

definition crossing :: "bool \<Rightarrow> animal \<Rightarrow> alert list \<Rightarrow> animal \<times> alert list" where
  "crossing ins a al =
     (case (if \<not> ins \<and> a_inside a
            then (a\<lparr>a_inside := False\<rparr>, al @ [(a_id a, py_int (a_x a), py_int (a_y a), LEFT)])
            else (a, al)) of
        (a1, al1) \<Rightarrow>
          if ins \<and> \<not> a_inside a1
          then (a1\<lparr>a_inside := True\<rparr>,
                al1 @ [(a_id a1, py_int (a_x a1), py_int (a_y a1), RE_ENTERED)])
          else (a1, al1))"

subsection \<open>The tick\<close>

text \<open>
  The loop over \<^verbatim>\<open>list(self.animals.values())\<close>. An exception of the containment test
  leaves the loop: the entity at hand has moved, the ones after it are untouched.
\<close>

fun tick_animals ::
  "sim_state \<Rightarrow> (int \<times> animal) list \<Rightarrow> rng \<Rightarrow> alert list
     \<Rightarrow> error option \<times> (int \<times> animal) list \<times> rng \<times> alert list" where
  "tick_animals st [] g al = (None, [], g, al)"
| "tick_animals st ((k, a) # rest) g al =
     (case step a g of (a1, g1) \<Rightarrow>
        let a2 = bounce (canvas_width st) (canvas_height st) a1 in
        (case classify st (a_x a2) (a_y a2) of
           Inl e \<Rightarrow> (Some e, (k, a2) # rest, g1, al)
         | Inr ins \<Rightarrow>
             (case crossing ins a2 al of (a3, al1) \<Rightarrow>
                case tick_animals st rest g1 al1 of (e, rest1, g2, al2) \<Rightarrow>
                  (e, (k, a3) # rest1, g2, al2))))"

text \<open>
  \<^verbatim>\<open>_tick_loop\<close>: one tick. The counts are recomputed and the next tick is requested from
  the timer only when the loop has not raised.
\<close>

definition tick_loop :: "sim_state \<Rightarrow> error option \<times> sim_state" where
  "tick_loop st =
     (case tick_animals st (animals st) (rng st) (alerts st) of (e, an, g, al) \<Rightarrow>
        let st1 = st\<lparr>animals := an, rng := g, alerts := al\<rparr> in
        (case e of
           Some err \<Rightarrow> (Some err, st1)
         | None \<Rightarrow>
             let st2 = update_counts st1
             in (None, if sim_running st2 then st2\<lparr>job := True\<rparr> else st2)))"



subsection \<open>The entity registry\<close>

definition create_animal :: "real \<Rightarrow> real \<Rightarrow> sim_state \<Rightarrow> sim_state" where
  "create_animal px py st =
     (let i = next_animal_id st in
      case Animal_init i px py (speed_mul st) (rng st) of (a, g) \<Rightarrow>
        let c = Suc (canvas_items st)
        in update_counts
             (st\<lparr>next_animal_id := i + 1, rng := g, canvas_items := c,
                 animals := AList.update i (a\<lparr>a_canvas_obj := Some c\<rparr>) (animals st)\<rparr>))"

definition add_random_animal :: "sim_state \<Rightarrow> sim_state" where
  "add_random_animal st =
     (case uniform 40 (max 40 (of_int (canvas_width st - 40))) (rng st) of (px, g1) \<Rightarrow>
      case uniform 40 (max 40 (of_int (canvas_height st - 40))) g1 of (py, g2) \<Rightarrow>
        create_animal px py (st\<lparr>rng := g2\<rparr>))"

definition add_animal_at_center :: "sim_state \<Rightarrow> sim_state" where
  "add_animal_at_center st =
     (case uniform (- 10) 10 (rng st) of (dx, g1) \<Rightarrow>
      case uniform (- 10) 10 g1 of (dy, g2) \<Rightarrow>
        create_animal (of_int (canvas_width st) / 2 + dx) (of_int (canvas_height st) / 2 + dy)
          (st\<lparr>rng := g2\<rparr>))"

definition remove_last_animal :: "sim_state \<Rightarrow> sim_state" where
  "remove_last_animal st =
     (if animals st = [] then st
      else
        let last = Max (set (map fst (animals st)))
        in update_counts (st\<lparr>animals := AList.delete last (animals st)\<rparr>))"

definition reset_animals :: "sim_state \<Rightarrow> sim_state" where
  "reset_animals st =
     update_counts
       ((add_random_animal ^^ nat (max 0 (init_animal_count st)))
          (st\<lparr>animals := [], next_animal_id := 1\<rparr>))"

text \<open>
  \<^verbatim>\<open>VirtualFenceApp.__init__\<close>: the defaults, then the initial animals. \<open>c\<close> is the number
  of grid lines that \<^verbatim>\<open>_draw_grid\<close> has put on the canvas.
\<close>

definition new_app :: "rng \<Rightarrow> nat \<Rightarrow> sim_state" where
  "new_app g c =
     \<lparr>canvas_width = 900, canvas_height = 600, canvas_items = c,
      canvas_w = 900, canvas_h = 600, tick_ms = 100, init_animal_count = 8,
      speed_mul = 1, animal_size = 6, fence_color = ''#2563eb'', draw_mode = False,
      animals = [], next_animal_id = 1, sim_running = False, job = False, alerts = [],
      polygon_points = [], fence_polygon_id = None, status_inside = 0, status_outside = 0,
      rng = g\<rparr>"

definition app_init :: "rng \<Rightarrow> nat \<Rightarrow> sim_state" where
  "app_init g c = (add_random_animal ^^ 8) (new_app g c)"

subsection \<open>Saving and loading the configuration\<close>

text \<open>
  The JSON document of \<^verbatim>\<open>save_config\<close>. A field may be absent from a document that is
  loaded (\<^verbatim>\<open>cfg.get\<close> with a default); an entity snapshot is a JSON array of numbers,
  which \<^verbatim>\<open>load_config\<close> unpacks into five values or skips. The file dialog and the file
  system are outside the model: saving yields the document, loading takes one.
\<close>

record config =
  cfg_canvas_w :: "int option"
  cfg_canvas_h :: "int option"
  cfg_tick_ms :: "int option"
  cfg_init_animal_count :: "int option"
  cfg_speed_mul :: "real option"
  cfg_animal_size :: "int option"
  cfg_fence_color :: "string option"
  cfg_polygon_points :: "point list option"
  cfg_animals :: "real list list option"

text \<open>The snapshot \<^verbatim>\<open>(a.id, a.x, a.y, a.base_speed, a.speed_multiplier)\<close> of an entity.\<close>

definition entry_of :: "animal \<Rightarrow> real list" where
  "entry_of a = [of_int (a_id a), a_x a, a_y a, a_base_speed a, a_speed_multiplier a]"

definition save_config :: "sim_state \<Rightarrow> config" where
  "save_config st =
     \<lparr>cfg_canvas_w = Some (canvas_width st),
      cfg_canvas_h = Some (canvas_height st),
      cfg_tick_ms = Some (tick_ms st),
      cfg_init_animal_count = Some (init_animal_count st),
      cfg_speed_mul = Some (speed_mul st),
      cfg_animal_size = Some (animal_size st),
      cfg_fence_color = Some (fence_color st),
      cfg_polygon_points = Some (polygon_points st),
      cfg_animals = Some (map (\<lambda>(k, a). entry_of a) (animals st))\<rparr>"

definition get_default :: "'a option \<Rightarrow> 'a \<Rightarrow> 'a" where
  "get_default v d = (case v of None \<Rightarrow> d | Some w \<Rightarrow> w)"

text \<open>
  The body of the loop over the saved entities. The saved id is unpacked and not used:
  \<^verbatim>\<open>_create_animal\<close> takes the id from the counter. An entry that does not unpack into
  five values raises inside the \<^verbatim>\<open>try\<close> and is skipped.
\<close>

definition load_entry :: "real list \<Rightarrow> sim_state \<Rightarrow> sim_state" where
  "load_entry entry st =
     (case entry of
        [i, ex, ey, base, mult] \<Rightarrow>
          let st1 = create_animal ex ey st;
              k = next_animal_id st1 - 1
          in (case map_of (animals st1) k of
                None \<Rightarrow> st1
              | Some new \<Rightarrow>
                  st1\<lparr>animals :=
                        AList.update k (new\<lparr>a_base_speed := base, a_speed_multiplier := mult\<rparr>)
                          (animals st1)\<rparr>)
      | _ \<Rightarrow> st)"

text \<open>
  \<^verbatim>\<open>load_config\<close>, first part: the settings, the vertex list and the fence polygon, which
  is drawn, and so activated, whenever the document holds three vertices or more.
\<close>

definition load_fence :: "config \<Rightarrow> sim_state \<Rightarrow> sim_state" where
  "load_fence cfg st =
     (let st1 = st\<lparr>canvas_width := get_default (cfg_canvas_w cfg) (canvas_w st),
                    canvas_height := get_default (cfg_canvas_h cfg) (canvas_h st),
                    canvas_w := get_default (cfg_canvas_w cfg) (canvas_w st),
                    canvas_h := get_default (cfg_canvas_h cfg) (canvas_h st),
                    tick_ms := get_default (cfg_tick_ms cfg) (tick_ms st),
                    init_animal_count :=
                      get_default (cfg_init_animal_count cfg) (init_animal_count st),
                    speed_mul := get_default (cfg_speed_mul cfg) (speed_mul st),
                    animal_size := get_default (cfg_animal_size cfg) (animal_size st),
                    fence_color := get_default (cfg_fence_color cfg) (fence_color st),
                    polygon_points := get_default (cfg_polygon_points cfg) []\<rparr>;
          st2 = (if truthy (fence_polygon_id st1) then st1\<lparr>fence_polygon_id := None\<rparr>
                 else st1)
      in if length (polygon_points st2) \<ge> 3
         then st2\<lparr>fence_polygon_id := Some (Suc (canvas_items st2)),
                  canvas_items := Suc (canvas_items st2)\<rparr>
         else st2)"

text \<open>Second part: the registry is emptied, the counter is set to 1, the entities are made.\<close>

definition load_config :: "config \<Rightarrow> sim_state \<Rightarrow> sim_state" where
  "load_config cfg st =
     (let st3 = load_fence cfg st;
          st4 = st3\<lparr>animals := [], next_animal_id := 1\<rparr>
      in update_counts (fold load_entry (get_default (cfg_animals cfg) []) st4))"

subsection \<open>Observations and runs\<close>

text \<open>The counts shown on the dashboard agree with the registry.\<close>

definition counts_ok :: "sim_state \<Rightarrow> bool" where
  "counts_ok st =
     (status_inside st = int (length (filter (\<lambda>(k, a). a_inside a) (animals st)))
      \<and> status_inside st + status_outside st = int (length (animals st)))"

text \<open>The stored containment state of the entity \<open>k\<close>, if it is registered.\<close>

definition stored :: "int \<Rightarrow> sim_state \<Rightarrow> bool option" where
  "stored k st = map_option a_inside (map_of (animals st) k)"

text \<open>The kinds of the alerts of the log that carry the id \<open>k\<close>, in the order of the log.\<close>

definition alerts_of :: "int \<Rightarrow> alert list \<Rightarrow> kind list" where
  "alerts_of k al = map (\<lambda>(i, ax, ay, kd). kd) (filter (\<lambda>(i, ax, ay, kd). i = k) al)"

text \<open>
  The alerts that a change of the stored containment state from the first value to the
  second stands for: none where it stays, \<open>LEFT\<close> where it turns to outside,
  \<open>RE_ENTERED\<close> where it turns to inside.
\<close>

fun transition :: "bool option \<Rightarrow> bool option \<Rightarrow> kind list" where
  "transition (Some b) (Some b') = (if b = b' then [] else [if b' then RE_ENTERED else LEFT])"
| "transition _ _ = []"

text \<open>The position and the two speed fields of a registered entity.\<close>

definition persisted :: "int \<times> animal \<Rightarrow> real \<times> real \<times> real \<times> real" where
  "persisted p = (a_x (snd p), a_y (snd p), a_base_speed (snd p), a_speed_multiplier (snd p))"

text \<open>Every entity is registered under its own id, and once.\<close>

definition registry_ok :: "(int \<times> animal) list \<Rightarrow> bool" where
  "registry_ok xs = (distinct (map fst xs) \<and> list_all (\<lambda>(k, a). a_id a = k) xs)"

text \<open>\<open>tick_chain st sts\<close>: the states \<open>sts\<close> follow \<open>st\<close> by one completed tick each.\<close>

fun tick_chain :: "sim_state \<Rightarrow> sim_state list \<Rightarrow> bool" where
  "tick_chain st [] = True"
| "tick_chain st (s # ss) = (tick_loop st = (None, s) \<and> tick_chain s ss)"

text \<open>
  The buttons that add and remove entities, a run of them, and the ids that the spawns of
  a run hand out: \<^verbatim>\<open>_create_animal\<close> takes \<^verbatim>\<open>self.next_animal_id\<close>.
\<close>

datatype registry_op = Add_random | Add_at_center | Remove_last

fun apply_op :: "registry_op \<Rightarrow> sim_state \<Rightarrow> sim_state" where
  "apply_op Add_random st = add_random_animal st"
| "apply_op Add_at_center st = add_animal_at_center st"
| "apply_op Remove_last st = remove_last_animal st"

fun run_ops :: "registry_op list \<Rightarrow> sim_state \<Rightarrow> sim_state" where
  "run_ops [] st = st"
| "run_ops (c # cs) st = run_ops cs (apply_op c st)"

fun spawned :: "registry_op list \<Rightarrow> sim_state \<Rightarrow> int list" where
  "spawned [] st = []"
| "spawned (Remove_last # cs) st = spawned cs (apply_op Remove_last st)"
| "spawned (c # cs) st = next_animal_id st # spawned cs (apply_op c st)"

text \<open>Every registered id is below the counter.\<close>

definition ids_below :: "sim_state \<Rightarrow> bool" where
  "ids_below st = list_all (\<lambda>k. k < next_animal_id st) (map fst (animals st))"

subsection \<open>Concrete inputs\<close>

text \<open>A random source that always yields 1/2: every wander is 0.\<close>

definition calm :: rng where
  "calm = (\<lambda>n. 1 / 2)"

text \<open>A random source that yields 0 first and 1/2 from then on.\<close>

definition jolt :: rng where
  "jolt = (\<lambda>n. if n = 0 then 0 else 1 / 2)"

text \<open>
  The entity 1 at \<open>(px, 150)\<close> with the horizontal velocity \<open>vx\<close>, the base speed 1,
  the multiplier \<open>mult\<close> and the stored containment state \<open>ins\<close>.
\<close>

definition walker :: "real \<Rightarrow> real \<Rightarrow> real \<Rightarrow> bool \<Rightarrow> animal" where
  "walker px vx mult ins =
     \<lparr>a_id = 1, a_x = px, a_y = 150, a_vx = vx, a_vy = 0, a_base_speed = 1,
      a_speed_multiplier = mult, a_inside = ins, a_canvas_obj = Some 3\<rparr>"

text \<open>
  A fresh application in drawing mode after two clicks, and after two more: four draft
  vertices of a square, with no fence ever activated.
\<close>

definition draft2 :: sim_state where
  "draft2 = canvas_click 200 100 (canvas_click 100 100 (toggle_draw_mode (new_app calm 0)))"

definition draft4 :: sim_state where
  "draft4 = canvas_click 100 200 (canvas_click 200 200 draft2)"

text \<open>
  A fresh application where an entity is added, removed, and another one added: the
  registry holds the one entity 2.
\<close>

definition renumbered :: sim_state where
  "renumbered =
     add_animal_at_center (remove_last_animal (add_animal_at_center (new_app calm 0)))"

text \<open>
  A running simulation on a canvas of 200 by 300 with the active fence
  (150,100), (191,100), (191,200), (150,200) and the one entity
  \<open>walker px vx 2 ins\<close>; \<open>al\<close> is the alert log.
\<close>

definition pen :: "real \<Rightarrow> real \<Rightarrow> bool \<Rightarrow> alert list \<Rightarrow> sim_state" where
  "pen px vx ins al =
     \<lparr>canvas_width = 200, canvas_height = 300, canvas_items = 3,
      canvas_w = 200, canvas_h = 300, tick_ms = 100, init_animal_count = 1,
      speed_mul = 2, animal_size = 6, fence_color = ''#2563eb'', draw_mode = False,
      animals = [(1, walker px vx 2 ins)], next_animal_id = 2, sim_running = True,
      job = True, alerts = al,
      polygon_points = [(150, 100), (191, 100), (191, 200), (150, 200)],
      fence_polygon_id = Some 2, status_inside = (if ins then 1 else 0),
      status_outside = (if ins then 0 else 1), rng = calm\<rparr>"

text \<open>Seven ticks of that simulation, from the entity at 190 heading right.\<close>

definition pen_run :: "sim_state list" where
  "pen_run =
     [pen 192 2 False [(1, 192, 150, LEFT)],
      pen 194 2 False [(1, 192, 150, LEFT)],
      pen 195 (- (6 / 5)) False [(1, 192, 150, LEFT)],
      pen 193 (- 2) False [(1, 192, 150, LEFT)],
      pen 191 (- 2) False [(1, 192, 150, LEFT)],
      pen 189 (- 2) True [(1, 192, 150, LEFT), (1, 189, 150, RE_ENTERED)],
      pen 187 (- 2) True [(1, 192, 150, LEFT), (1, 189, 150, RE_ENTERED)]]"

subsection \<open>Properties of the containment predicate\<close>

lemma upt_4: "[0 ..< 4] = [0, Suc 0, 2, 3]"
  by (simp add: upt_rec)

text \<open>
  C1. For the square fence (0,0), (10,0), (10,10), (0,10) the containment predicate
  answers inside for the point (5,5), outside for (15,5) and outside for (5,-0.001).
\<close>

theorem C1_square_fence_points:
  "point_in_polygon 5 5 square_fence = Inr True
   \<and> point_in_polygon 15 5 square_fence = Inr False
   \<and> point_in_polygon 5 (- (1 / 1000)) square_fence = Inr False"
  by (simp add: point_in_polygon_def square_fence_def upt_4 intersect_def)

text \<open>
  C10. For every point and every polygon of exactly one vertex the containment predicate
  answers outside: the only edge joins the vertex to itself and is never straddled. The
  tick follows it when a fence is active and one vertex is held, whereas with no fence the
  tick's policy for an undersized polygon answers inside.
\<close>

theorem C10_single_vertex_outside:
  "point_in_polygon x y [v] = Inr False
   \<and> classify (st\<lparr>fence_polygon_id := Some (Suc n), polygon_points := [v]\<rparr>) x y = Inr False
   \<and> classify (st\<lparr>fence_polygon_id := None, polygon_points := [v]\<rparr>) x y = Inr True"
  by (cases v)
    (simp add: point_in_polygon_def intersect_def classify_def truthy_def
      get_active_polygon_points_def)

subsection \<open>Classification without an activated fence\<close>

lemma draft2_fields:
  "polygon_points draft2 = [(100, 100), (200, 100)]" "fence_polygon_id draft2 = None"
  "draw_mode draft2"
  by (simp_all add: draft2_def new_app_def toggle_draw_mode_def canvas_click_def)

lemma draft4_fields:
  "polygon_points draft4 = [(100, 100), (200, 100), (200, 200), (100, 200)]"
  "fence_polygon_id draft4 = None"
  by (simp_all add: draft4_def draft2_fields canvas_click_def)

text \<open>
  C3, as stated, fails: with four draft vertices collected and no fence ever activated,
  an entity at (300, 150) is classified outside, from the draft vertices.
\<close>

theorem C3_draft_counterexample:
  "fence_polygon_id draft4 = None \<and> classify draft4 300 150 = Inr False"
  by (simp add: classify_def truthy_def draft4_fields point_in_polygon_def intersect_def upt_4)

text \<open>
  C3, amended. While no fence is active, the classification of the tick is inside for
  every position as long as fewer than three draft vertices are collected; from three
  draft vertices on it is the containment predicate on the draft vertex list.
\<close>

theorem C3_no_fence_classification:
  "fence_polygon_id st = None \<Longrightarrow>
     classify st px py =
       (if length (polygon_points st) < 3 then Inr True
        else point_in_polygon px py (polygon_points st))"
  by (auto simp add: classify_def truthy_def)

theorem C3_no_fence_classification_witness:
  "fence_polygon_id draft2 = None \<and> classify draft2 300 150 = Inr True"
  using C3_no_fence_classification [of draft2 300 150] by (simp add: draft2_fields)

subsection \<open>Rejected activation\<close>

text \<open>
  C9. Finishing a polygon with fewer than three collected vertices reports the invalid
  polygon and changes nothing: the state after the request is the state before it.
\<close>

theorem C9_invalid_activation_atomic:
  "length (polygon_points st) < 3 \<Longrightarrow> finish_polygon st = (Some Invalid_polygon, st)"
  by (simp add: finish_polygon_def)

theorem C9_invalid_activation_atomic_witness:
  "length (polygon_points draft2) < 3 \<and> finish_polygon draft2 = (Some Invalid_polygon, draft2)"
  using C9_invalid_activation_atomic [of draft2] by (simp add: draft2_fields)

subsection \<open>The speed after a motion step\<close>

lemma hypot_scale:
  assumes "0 < n"
  shows "hypot (u / n * s) (v / n * s) = \<bar>s\<bar> * (hypot u v / n)"
proof -
  have "(u / n * s) ^ 2 + (v / n * s) ^ 2 = (s / n) ^ 2 * (u ^ 2 + v ^ 2)"
    by (simp add: power_mult_distrib power_divide distrib_left mult.commute
        add_divide_distrib)
  then have "hypot (u / n * s) (v / n * s) = \<bar>s / n\<bar> * sqrt (u ^ 2 + v ^ 2)"
    by (simp add: hypot_def real_sqrt_mult)
  also have "\<dots> = \<bar>s\<bar> * (hypot u v / n)"
    using assms by (simp add: hypot_def abs_mult)
  finally show ?thesis .
qed

lemma hypot_zero_right: "hypot u 0 = \<bar>u\<bar>"
  by (simp add: hypot_def)

lemma step_velocity:
  "a_vx (fst (step a g)) =
     a_vx (fst (wander a g))
       / max (1 / 10 ^ 6) (hypot (a_vx (fst (wander a g))) (a_vy (fst (wander a g))))
       * (a_base_speed a * a_speed_multiplier a)"
  "a_vy (fst (step a g)) =
     a_vy (fst (wander a g))
       / max (1 / 10 ^ 6) (hypot (a_vx (fst (wander a g))) (a_vy (fst (wander a g))))
       * (a_base_speed a * a_speed_multiplier a)"
  by (simp_all add: step_def renormalize_def Let_def split: prod.splits)

lemma wander_walker_calm:
  "fst (wander (walker px vx m ins) calm) = walker px vx m ins" "snd (wander a calm) = calm"
  by (simp_all add: wander_def uniform_def calm_def walker_def)

lemma wander_walker_jolt:
  "fst (wander (walker px vx m ins) jolt) = walker px (vx - 1 / 4) m ins" "snd (wander a jolt) = calm"
  by (simp_all add: wander_def uniform_def calm_def jolt_def walker_def)

lemma walker_fields:
  "a_vx (walker px vx m ins) = vx" "a_vy (walker px vx m ins) = 0"
  "a_base_speed (walker px vx m ins) = 1" "a_speed_multiplier (walker px vx m ins) = m"
  "a_x (walker px vx m ins) = px" "a_y (walker px vx m ins) = 150"
  "a_id (walker px vx m ins) = 1" "a_inside (walker px vx m ins) = ins"
  by (simp_all add: walker_def)

text \<open>
  C6, as stated, fails where the wander cancels the velocity: from the velocity (1/4, 0)
  with the wander (-1/4, 0) the step leaves the velocity (0, 0), of magnitude 0, while
  the speed is 1.
\<close>

theorem C6_degenerate_counterexample:
  "hypot (a_vx (fst (step (walker 190 (1 / 4) 1 True) jolt))) (a_vy (fst (step (walker 190 (1 / 4) 1 True) jolt))) = 0
   \<and> a_base_speed (walker 190 (1 / 4) 1 True) * a_speed_multiplier (walker 190 (1 / 4) 1 True) = 1"
  by (simp add: step_velocity wander_walker_jolt walker_fields hypot_zero_right)

text \<open>
  C6, amended. After one motion step the magnitude of the velocity is the absolute value
  of the speed \<open>baseSpeed * speedMultiplier\<close>, scaled by the norm \<open>n1\<close> of the velocity
  after the wander over \<open>max 1e-6 n1\<close>. So it equals the speed when that norm is at least
  \<open>1e-6\<close> and the speed is not negative, and it is strictly below the absolute value of a
  speed other than 0 when the norm is under the floor.
\<close>

theorem C6_step_speed_magnitude:
  "let speed = a_base_speed a * a_speed_multiplier a;
       a1 = fst (wander a g);
       n1 = hypot (a_vx a1) (a_vy a1);
       a' = fst (step a g)
   in hypot (a_vx a') (a_vy a') = \<bar>speed\<bar> * (n1 / max (1 / 10 ^ 6) n1)
      \<and> (1 / 10 ^ 6 \<le> n1 \<and> 0 \<le> speed \<longrightarrow> hypot (a_vx a') (a_vy a') = speed)
      \<and> (n1 < 1 / 10 ^ 6 \<and> speed \<noteq> 0 \<longrightarrow> hypot (a_vx a') (a_vy a') < \<bar>speed\<bar>)"
proof -
  define speed where "speed = a_base_speed a * a_speed_multiplier a"
  define a1 where "a1 = fst (wander a g)"
  define n1 where "n1 = hypot (a_vx a1) (a_vy a1)"
  define a' where "a' = fst (step a g)"
  have pos: "0 < max (1 / 10 ^ 6) n1"
    by (simp add: max_def)
  have m: "hypot (a_vx a') (a_vy a') = \<bar>speed\<bar> * (n1 / max (1 / 10 ^ 6) n1)"
  proof -
    have "a_vx a' = a_vx a1 / max (1 / 10 ^ 6) n1 * speed"
      and "a_vy a' = a_vy a1 / max (1 / 10 ^ 6) n1 * speed"
      unfolding a'_def a1_def n1_def speed_def by (rule step_velocity)+
    then show ?thesis
      using hypot_scale [OF pos, where u = "a_vx a1" and v = "a_vy a1" and s = speed]
      by (simp only: n1_def)
  qed
  have big: "hypot (a_vx a') (a_vy a') = speed" if "1 / 10 ^ 6 \<le> n1" "0 \<le> speed"
    unfolding m using that by (simp add: max_def)
  have small: "hypot (a_vx a') (a_vy a') < \<bar>speed\<bar>" if "n1 < 1 / 10 ^ 6" "speed \<noteq> 0"
  proof -
    have "n1 / (1 / 10 ^ 6) < 1"
      using that(1) by simp
    then have "\<bar>speed\<bar> * (n1 / (1 / 10 ^ 6)) < \<bar>speed\<bar> * 1"
      using that(2) by (intro mult_strict_left_mono) simp_all
    then show ?thesis
      unfolding m using that(1) by (simp add: max_def)
  qed
  show ?thesis
    using m big small by (simp add: Let_def speed_def a1_def n1_def a'_def)
qed

theorem C6_step_speed_magnitude_witness:
  "(1 / 10 ^ 6 \<le> hypot (a_vx (fst (wander (walker 190 1 2 True) calm))) (a_vy (fst (wander (walker 190 1 2 True) calm)))
    \<and> 0 \<le> a_base_speed (walker 190 1 2 True) * a_speed_multiplier (walker 190 1 2 True)
    \<and> hypot (a_vx (fst (step (walker 190 1 2 True) calm))) (a_vy (fst (step (walker 190 1 2 True) calm))) = 2)
   \<and> (hypot (a_vx (fst (wander (walker 190 (1 / 4) 2 True) jolt))) (a_vy (fst (wander (walker 190 (1 / 4) 2 True) jolt)))
        < 1 / 10 ^ 6
      \<and> a_base_speed (walker 190 (1 / 4) 2 True) * a_speed_multiplier (walker 190 (1 / 4) 2 True) \<noteq> 0
      \<and> hypot (a_vx (fst (step (walker 190 (1 / 4) 2 True) jolt))) (a_vy (fst (step (walker 190 (1 / 4) 2 True) jolt)))
          < 2)"
  using C6_step_speed_magnitude [of "walker 190 1 2 True" calm]
    C6_step_speed_magnitude [of "walker 190 (1 / 4) 2 True" jolt]
  by (simp add: Let_def wander_walker_calm wander_walker_jolt walker_fields hypot_zero_right)

subsection \<open>Ticks of the concrete simulation\<close>

lemmas tick_eval =
  tick_loop_def pen_def walker_def step_def wander_def uniform_def calm_def renormalize_def
  hypot_zero_right bounce_def classify_def truthy_def get_active_polygon_points_def
  point_in_polygon_def intersect_def upt_4 crossing_def py_int_def update_counts_def Let_def

lemma pen_tick_1:
  "tick_loop (pen 190 1 True []) = (None, pen 192 2 False [(1, 192, 150, LEFT)])"
  by (simp add: tick_eval)

lemma pen_tick_2: "tick_loop (pen 192 2 False al) = (None, pen 194 2 False al)"
  by (simp add: tick_eval)

lemma pen_tick_3: "tick_loop (pen 194 2 False al) = (None, pen 195 (- (6 / 5)) False al)"
  by (simp add: tick_eval)

lemma pen_tick_4: "tick_loop (pen 195 (- (6 / 5)) False al) = (None, pen 193 (- 2) False al)"
  by (simp add: tick_eval)

lemma pen_tick_5: "tick_loop (pen 193 (- 2) False al) = (None, pen 191 (- 2) False al)"
  by (simp add: tick_eval)

lemma pen_tick_6:
  "tick_loop (pen 191 (- 2) False al)
     = (None, pen 189 (- 2) True (al @ [(1, 189, 150, RE_ENTERED)]))"
  by (simp add: tick_eval)

lemma pen_tick_7: "tick_loop (pen 189 (- 2) True al) = (None, pen 187 (- 2) True al)"
  by (simp add: tick_eval)

subsection \<open>The dashboard counts\<close>

lemma counts_ok_update_counts: "counts_ok (update_counts st)"
proof -
  have "length (filter (\<lambda>(k, a). a_inside a) (animals st)) \<le> length (animals st)"
    by (rule length_filter_le)
  then show ?thesis
    by (simp add: counts_ok_def update_counts_def Let_def)
qed

lemma counts_ok_job: "counts_ok (st\<lparr>job := b\<rparr>) = counts_ok st"
  by (simp add: counts_ok_def)

lemma tick_animals_length:
  "tick_animals st xs g al = (e, ys, g', al') \<Longrightarrow> length ys = length xs"
  by (induction xs arbitrary: g al e ys g' al')
    (auto split: prod.splits sum.splits simp: Let_def)

lemma tick_loop_completed: "fst (tick_loop st) = None \<Longrightarrow> counts_ok (snd (tick_loop st))"
  by (auto simp add: tick_loop_def Let_def counts_ok_update_counts counts_ok_job
      split: prod.splits option.splits)

lemma tick_loop_sum:
  assumes "status_inside st + status_outside st = int (length (animals st))"
  shows "status_inside (snd (tick_loop st)) + status_outside (snd (tick_loop st))
           = int (length (animals (snd (tick_loop st))))"
proof (cases "fst (tick_loop st)")
  case None
  then show ?thesis
    using tick_loop_completed [of st] by (simp add: counts_ok_def)
next
  case (Some e)
  then show ?thesis
    using assms
    by (auto simp add: tick_loop_def Let_def split: prod.splits option.splits
        dest: tick_animals_length)
qed

lemma counts_ok_create: "counts_ok (create_animal px py st)"
  by (simp add: create_animal_def Let_def counts_ok_update_counts split: prod.splits)

lemma counts_ok_add_random: "counts_ok (add_random_animal st)"
  by (simp add: add_random_animal_def counts_ok_create split: prod.splits)

lemma counts_ok_add_center: "counts_ok (add_animal_at_center st)"
  by (simp add: add_animal_at_center_def counts_ok_create split: prod.splits)

lemma counts_ok_remove:
  "animals st \<noteq> [] \<or> counts_ok st \<Longrightarrow> counts_ok (remove_last_animal st)"
  by (auto simp add: remove_last_animal_def Let_def counts_ok_update_counts)

text \<open>
  C5. After every tick that runs to its end, after every added entity and after every
  removal, the inside count is the number of registered entities whose stored state is
  inside, and the inside and outside counts add up to the number of registered entities.
  A removal from an empty registry returns at once and leaves the counts as they were; a
  tick that an exception cuts short leaves the counts and the size of the registry as
  they were, so the sum is kept there too.
\<close>

theorem C5_counts_add_up:
  "(fst (tick_loop st) = None \<longrightarrow> counts_ok (snd (tick_loop st)))
   \<and> (status_inside st + status_outside st = int (length (animals st)) \<longrightarrow>
        status_inside (snd (tick_loop st)) + status_outside (snd (tick_loop st))
          = int (length (animals (snd (tick_loop st)))))
   \<and> counts_ok (create_animal px py st)
   \<and> counts_ok (add_random_animal st)
   \<and> counts_ok (add_animal_at_center st)
   \<and> (animals st \<noteq> [] \<or> counts_ok st \<longrightarrow> counts_ok (remove_last_animal st))"
  using tick_loop_completed [of st] tick_loop_sum [of st] counts_ok_create
    counts_ok_add_random counts_ok_add_center counts_ok_remove [of st]
  by blast

theorem C5_counts_add_up_witness:
  "fst (tick_loop (pen 190 1 True [])) = None
   \<and> counts_ok (snd (tick_loop (pen 190 1 True [])))
   \<and> status_inside (pen 190 1 True []) + status_outside (pen 190 1 True [])
       = int (length (animals (pen 190 1 True [])))
   \<and> animals (pen 190 1 True []) \<noteq> []
   \<and> counts_ok (remove_last_animal (pen 190 1 True []))"
  using C5_counts_add_up [of "pen 190 1 True []"]
  by (simp add: pen_tick_1) (simp add: pen_def)

subsection \<open>Entity ids\<close>

lemma create_next: "next_animal_id (create_animal px py st) = next_animal_id st + 1"
  by (simp add: create_animal_def Let_def update_counts_def split: prod.splits)

lemma update_fresh: "k \<notin> fst ` set al \<Longrightarrow> AList.update k v al = al @ [(k, v)]"
  by (induction al) auto

lemma ids_below_fresh: "ids_below st \<Longrightarrow> next_animal_id st \<notin> fst ` set (animals st)"
  by (auto simp add: ids_below_def list_all_iff)

lemma create_animals:
  "ids_below st \<Longrightarrow>
     animals (create_animal px py st)
       = animals st
           @ [(next_animal_id st,
               (fst (Animal_init (next_animal_id st) px py (speed_mul st) (rng st)))
                 \<lparr>a_canvas_obj := Some (Suc (canvas_items st))\<rparr>)]"
  by (simp add: create_animal_def Let_def update_counts_def update_fresh ids_below_fresh
      split: prod.splits)

lemma Animal_init_id: "a_id (fst (Animal_init i px py m g)) = i"
  by (simp add: Animal_init_def split: prod.splits)

lemma create_keys:
  "ids_below st \<Longrightarrow>
     map (\<lambda>(k, a). (k, a_id a)) (animals (create_animal px py st))
       = map (\<lambda>(k, a). (k, a_id a)) (animals st) @ [(next_animal_id st, next_animal_id st)]"
  by (simp add: create_animals Animal_init_id)

lemma create_ids_below:
  assumes "ids_below st"
  shows "ids_below (create_animal px py st)"
  unfolding ids_below_def create_animals [OF assms] create_next
  using assms by (auto simp add: ids_below_def list_all_iff)

lemma remove_next: "next_animal_id (remove_last_animal st) = next_animal_id st"
  by (simp add: remove_last_animal_def Let_def update_counts_def)

lemma remove_ids_below: "ids_below st \<Longrightarrow> ids_below (remove_last_animal st)"
  by (auto simp add: ids_below_def remove_last_animal_def Let_def update_counts_def
      list_all_iff AList.delete_eq)

lemma ids_below_rng: "ids_below (st\<lparr>rng := g\<rparr>) = ids_below st"
  by (simp add: ids_below_def)

lemma apply_op_next: "next_animal_id st \<le> next_animal_id (apply_op c st)"
  by (cases c)
    (simp_all add: add_random_animal_def add_animal_at_center_def create_next remove_next
      split: prod.splits)

lemma apply_op_ids_below: "ids_below st \<Longrightarrow> ids_below (apply_op c st)"
  by (cases c)
    (simp_all add: add_random_animal_def add_animal_at_center_def create_ids_below
      remove_ids_below ids_below_rng split: prod.splits)

lemma apply_spawn_next:
  "c \<noteq> Remove_last \<Longrightarrow> next_animal_id (apply_op c st) = next_animal_id st + 1"
  by (cases c)
    (simp_all add: add_random_animal_def add_animal_at_center_def create_next
      split: prod.splits)

lemma apply_spawn_keys:
  "c \<noteq> Remove_last \<Longrightarrow> ids_below st \<Longrightarrow>
     map (\<lambda>(k, a). (k, a_id a)) (animals (apply_op c st))
       = map (\<lambda>(k, a). (k, a_id a)) (animals st) @ [(next_animal_id st, next_animal_id st)]"
  by (cases c)
    (simp_all add: add_random_animal_def add_animal_at_center_def create_keys ids_below_rng
      split: prod.splits)

lemma run_ops_ids_below: "ids_below st \<Longrightarrow> ids_below (run_ops cs st)"
  by (induction cs arbitrary: st) (simp_all add: apply_op_ids_below)

lemma spawned_above: "list_all (\<lambda>i. next_animal_id st \<le> i) (spawned cs st)"
proof (induction cs arbitrary: st)
  case Nil
  show ?case by simp
next
  case (Cons c cs)
  have "list_all (\<lambda>i. next_animal_id (apply_op c st) \<le> i) (spawned cs (apply_op c st))"
    by (rule Cons.IH)
  then have "list_all (\<lambda>i. next_animal_id st \<le> i) (spawned cs (apply_op c st))"
    using apply_op_next [of st c] by (auto simp add: list_all_iff)
  then show ?case
    by (cases c) simp_all
qed

lemma spawned_sorted: "sorted_wrt (<) (spawned cs st)"
proof (induction cs arbitrary: st)
  case Nil
  show ?case by simp
next
  case (Cons c cs)
  show ?case
  proof (cases "c = Remove_last")
    case True
    then show ?thesis
      using Cons.IH by simp
  next
    case False
    have "list_all (\<lambda>i. next_animal_id st + 1 \<le> i) (spawned cs (apply_op c st))"
      using spawned_above [of "apply_op c st" cs] apply_spawn_next [OF False, of st] by simp
    then show ?thesis
      using False Cons.IH [of "apply_op c st"] by (cases c) (auto simp add: list_all_iff)
  qed
qed

lemma funpow_add_random:
  assumes "ids_below st"
  shows "ids_below ((add_random_animal ^^ n) st)
    \<and> next_animal_id ((add_random_animal ^^ n) st) = next_animal_id st + int n
    \<and> map (\<lambda>(k, a). (k, a_id a)) (animals ((add_random_animal ^^ n) st))
        = map (\<lambda>(k, a). (k, a_id a)) (animals st)
            @ map (\<lambda>j. (next_animal_id st + int j, next_animal_id st + int j)) [0 ..< n]"
proof (induction n)
  case 0
  show ?case
    using assms by simp
next
  case (Suc n)
  let ?s = "(add_random_animal ^^ n) st"
  have b: "ids_below ?s"
    using Suc by simp
  show ?case
    using Suc apply_op_ids_below [OF b, of Add_random]
      apply_spawn_next [of Add_random ?s] apply_spawn_keys [OF _ b, of Add_random]
    by simp
qed

lemma reset_animals_ids:
  "map (\<lambda>(k, a). (k, a_id a)) (animals (reset_animals st))
     = map (\<lambda>j. (1 + int j, 1 + int j)) [0 ..< nat (max 0 (init_animal_count st))]
   \<and> next_animal_id (reset_animals st) = 1 + int (nat (max 0 (init_animal_count st)))"
proof -
  let ?s0 = "st\<lparr>animals := [], next_animal_id := 1\<rparr>"
  have b: "ids_below ?s0"
    by (simp add: ids_below_def)
  show ?thesis
    using funpow_add_random [OF b, of "nat (max 0 (init_animal_count st))"]
    by (simp add: reset_animals_def update_counts_def Let_def)
qed

text \<open>
  C7, as stated, fails over the lifetime of the process: the registry holds the entity 1,
  at 190, and the reset of the animals to the initial count registers a new entity, at
  100, under the id 1 again.
\<close>

theorem C7_reset_counterexample:
  "map (\<lambda>(k, a). (k, a_x a)) (animals (pen 190 1 True [])) = [(1, 190)]
   \<and> map (\<lambda>(k, a). (k, a_x a)) (animals (reset_animals (pen 190 1 True []))) = [(1, 100)]"
  by (simp add: reset_animals_def pen_def walker_def add_random_animal_def create_animal_def
      Animal_init_def uniform_def calm_def update_counts_def Let_def)

text \<open>
  C7, amended. Between two resets of the registry the ids are unique, handed out in
  increasing order and never handed out again: in every run of spawns and removals the
  ids handed out are strictly increasing, so none is handed out twice, and none is an id
  of the registry the run started from; a spawn registers the new entity, with that id,
  under the value of the counter. The registry the run starts from has all its ids below
  the counter, as every registry built by spawns and removals has. The reset of the
  animals to the initial count empties the registry and starts the counter at 1 again:
  the entities it makes are numbered 1, 2, ... whatever ids were held before.
\<close>

theorem C7_ids_fresh_until_reset:
  assumes "ids_below st"
  shows "sorted_wrt (<) (spawned cs st)
    \<and> distinct (spawned cs st)
    \<and> set (spawned cs st) \<inter> fst ` set (animals st) = {}
    \<and> ids_below (run_ops cs st)
    \<and> map (\<lambda>(k, a). (k, a_id a)) (animals (apply_op Add_random st))
        = map (\<lambda>(k, a). (k, a_id a)) (animals st) @ [(next_animal_id st, next_animal_id st)]
    \<and> map (\<lambda>(k, a). (k, a_id a)) (animals (apply_op Add_at_center st))
        = map (\<lambda>(k, a). (k, a_id a)) (animals st) @ [(next_animal_id st, next_animal_id st)]
    \<and> map (\<lambda>(k, a). (k, a_id a)) (animals (reset_animals st))
        = map (\<lambda>j. (1 + int j, 1 + int j)) [0 ..< nat (max 0 (init_animal_count st))]
    \<and> next_animal_id (reset_animals st) = 1 + int (nat (max 0 (init_animal_count st)))"
proof -
  have s: "sorted_wrt (<) (spawned cs st)"
    by (rule spawned_sorted)
  then have d: "distinct (spawned cs st)"
    by (simp add: strict_sorted_iff)
  have "set (spawned cs st) \<inter> fst ` set (animals st) = {}"
    using spawned_above [of st cs] assms by (fastforce simp add: ids_below_def list_all_iff)
  moreover have "ids_below (run_ops cs st)"
    using assms by (rule run_ops_ids_below)
  moreover note apply_spawn_keys [of Add_random st] apply_spawn_keys [of Add_at_center st]
    reset_animals_ids [of st]
  ultimately show ?thesis
    using s d assms by simp
qed

theorem C7_ids_fresh_until_reset_witness:
  "ids_below (pen 190 1 True [])
   \<and> sorted_wrt (<) (spawned [Add_random, Remove_last, Add_at_center] (pen 190 1 True []))
   \<and> set (spawned [Add_random, Remove_last, Add_at_center] (pen 190 1 True []))
        \<inter> fst ` set (animals (pen 190 1 True [])) = {}"
  using C7_ids_fresh_until_reset
    [of "pen 190 1 True []" "[Add_random, Remove_last, Add_at_center]"]
  by (simp add: ids_below_def pen_def)

subsection \<open>The global speed multiplier\<close>















subsection \<open>Saving and loading\<close>

lemma update_last: "k \<notin> fst ` set al \<Longrightarrow> AList.update k w (al @ [(k, v)]) = al @ [(k, w)]"
  by (induction al) auto

lemma map_of_last: "k \<notin> fst ` set al \<Longrightarrow> map_of (al @ [(k, v)]) k = Some v"
  by (induction al) auto

lemma load_entry_animals:
  assumes "ids_below st"
  shows "animals (load_entry [i, ex, ey, base, mult] st)
    = animals st
        @ [(next_animal_id st,
            (fst (Animal_init (next_animal_id st) ex ey (speed_mul st) (rng st)))
              \<lparr>a_canvas_obj := Some (Suc (canvas_items st)), a_base_speed := base,
                a_speed_multiplier := mult\<rparr>)]"
proof -
  let ?k = "next_animal_id st"
  let ?st1 = "create_animal ex ey st"
  let ?v = "(fst (Animal_init ?k ex ey (speed_mul st) (rng st)))
              \<lparr>a_canvas_obj := Some (Suc (canvas_items st))\<rparr>"
  have fresh: "?k \<notin> fst ` set (animals st)"
    using assms by (rule ids_below_fresh)
  have c: "animals ?st1 = animals st @ [(?k, ?v)]"
    using assms by (rule create_animals)
  have k: "next_animal_id ?st1 - 1 = ?k"
    by (simp add: create_next)
  have m: "map_of (animals ?st1) ?k = Some ?v"
    unfolding c using fresh by (rule map_of_last)
  have u: "AList.update ?k w (animals ?st1) = animals st @ [(?k, w)]" for w
    unfolding c using fresh by (rule update_last)
  show ?thesis
    by (simp add: load_entry_def Let_def k m u)
qed

lemma load_entry_next:
  "next_animal_id (load_entry [i, ex, ey, base, mult] st) = next_animal_id st + 1"
  by (simp add: load_entry_def Let_def create_next split: option.splits)

lemma load_entry_ids_below:
  assumes "ids_below st"
  shows "ids_below (load_entry [i, ex, ey, base, mult] st)"
  unfolding ids_below_def load_entry_animals [OF assms] load_entry_next
  using assms by (auto simp add: ids_below_def list_all_iff)

lemma create_polygon_points: "polygon_points (create_animal px py st) = polygon_points st"
  by (simp add: create_animal_def Let_def update_counts_def split: prod.splits)

lemma load_entry_polygon_points: "polygon_points (load_entry e st) = polygon_points st"
  by (simp add: load_entry_def Let_def create_polygon_points split: list.splits option.splits)

lemma Animal_init_pos:
  "a_x (fst (Animal_init i px py m g)) = px" "a_y (fst (Animal_init i px py m g)) = py"
  by (simp_all add: Animal_init_def split: prod.splits)

text \<open>Loading the snapshots of the entities \<open>xs\<close> into a registry with ids below the counter.\<close>

lemma fold_load_entry:
  assumes "ids_below st"
  shows "map persisted (animals (fold load_entry (map (\<lambda>(k, a). entry_of a) xs) st))
           = map persisted (animals st) @ map persisted xs
     \<and> map (\<lambda>(k, a). (k, a_id a)) (animals (fold load_entry (map (\<lambda>(k, a). entry_of a) xs) st))
           = map (\<lambda>(k, a). (k, a_id a)) (animals st)
               @ map (\<lambda>j. (next_animal_id st + int j, next_animal_id st + int j)) [0 ..< length xs]
     \<and> next_animal_id (fold load_entry (map (\<lambda>(k, a). entry_of a) xs) st)
           = next_animal_id st + int (length xs)
     \<and> polygon_points (fold load_entry (map (\<lambda>(k, a). entry_of a) xs) st) = polygon_points st"
  using assms
proof (induction xs arbitrary: st)
  case Nil
  then show ?case by simp
next
  case (Cons p xs)
  obtain k0 a0 where p: "p = (k0, a0)"
    by (cases p)
  let ?s = "load_entry (entry_of a0) st"
  have b: "ids_below ?s"
    unfolding entry_of_def using Cons.prems by (rule load_entry_ids_below)
  have a: "animals ?s
    = animals st
        @ [(next_animal_id st,
            (fst (Animal_init (next_animal_id st) (a_x a0) (a_y a0) (speed_mul st) (rng st)))
              \<lparr>a_canvas_obj := Some (Suc (canvas_items st)), a_base_speed := a_base_speed a0,
                a_speed_multiplier := a_speed_multiplier a0\<rparr>)]"
    unfolding entry_of_def using Cons.prems by (rule load_entry_animals)
  have n: "next_animal_id ?s = next_animal_id st + 1"
    unfolding entry_of_def by (rule load_entry_next)
  have sh: "map (\<lambda>j. (next_animal_id st + int j, next_animal_id st + int j)) [0 ..< Suc (length xs)]
    = (next_animal_id st, next_animal_id st)
        # map (\<lambda>j. (next_animal_id st + 1 + int j, next_animal_id st + 1 + int j)) [0 ..< length xs]"
    by (simp add: upt_rec [of 0] map_Suc_upt [symmetric] del: upt_Suc)
  show ?case
    using Cons.IH [OF b]
    by (simp add: p a n sh persisted_def Animal_init_pos Animal_init_id
        load_entry_polygon_points del: upt_Suc)
qed

lemma ids_below_empty: "animals st = [] \<Longrightarrow> ids_below st"
  by (simp add: ids_below_def)

lemma update_counts_fields:
  "animals (update_counts st) = animals st"
  "next_animal_id (update_counts st) = next_animal_id st"
  "polygon_points (update_counts st) = polygon_points st"
  by (simp_all add: update_counts_def Let_def)

lemma load_fence_saved:
  "polygon_points (load_fence (save_config st) st0) = polygon_points st"
  by (simp add: load_fence_def Let_def save_config_def get_default_def)

text \<open>
  C4, as stated, fails on the ids: the registry that holds the one entity 2 is saved, and
  the load of the saved document registers the entity under the id 1.
\<close>

theorem C4_ids_counterexample:
  "map fst (animals renumbered) = [2]
   \<and> map fst (animals (load_config (save_config renumbered) renumbered)) = [1]"
  by (simp add: renumbered_def add_animal_at_center_def create_animal_def Animal_init_def
      uniform_def calm_def remove_last_animal_def update_counts_def new_app_def Let_def
      save_config_def entry_of_def load_config_def load_fence_def load_entry_def
      get_default_def truthy_def)

text \<open>
  C4, amended. Loading the document saved from a state, into any state, reproduces the
  fence vertex sequence and, entity by entity in the saved order, the positions, the base
  speeds and the speed multipliers of the saved entities. The ids are not read from the
  document: the loaded entities are numbered 1, 2, ... in the saved order, and the
  counter ends one past the number of loaded entities, which is one past the highest
  loaded id, or 1 when there is none.
\<close>

theorem C4_save_load_round_trip:
  "let st' = load_config (save_config st) st0; n = length (animals st) in
     polygon_points st' = polygon_points st
     \<and> map persisted (animals st') = map persisted (animals st)
     \<and> map (\<lambda>(k, a). (k, a_id a)) (animals st') = map (\<lambda>j. (1 + int j, 1 + int j)) [0 ..< n]
     \<and> next_animal_id st' = 1 + int n"
proof -
  define s4 where "s4 = (load_fence (save_config st) st0)\<lparr>animals := [], next_animal_id := 1\<rparr>"
  have l: "load_config (save_config st) st0
    = update_counts (fold load_entry (map (\<lambda>(k, a). entry_of a) (animals st)) s4)"
    by (simp add: load_config_def s4_def Let_def save_config_def get_default_def)
  have e: "animals s4 = []" and n: "next_animal_id s4 = 1"
    and p: "polygon_points s4 = polygon_points st"
    by (simp_all add: s4_def load_fence_saved)
  have b: "ids_below s4"
    using e by (rule ids_below_empty)
  show ?thesis
    using fold_load_entry [OF b, of "animals st"]
    by (simp add: Let_def l update_counts_fields e n p)
qed

subsection \<open>Crossing events\<close>

lemma crossing_eq:
  "crossing ins a al =
     (a\<lparr>a_inside := ins\<rparr>,
      al @ (if ins = a_inside a then []
            else [(a_id a, py_int (a_x a), py_int (a_y a), if ins then RE_ENTERED else LEFT)]))"
  by (cases ins; cases "a_inside a") (simp_all add: crossing_def)

lemma step_keeps: "step a g = (a', g') \<Longrightarrow> a_id a' = a_id a \<and> a_inside a' = a_inside a"
  by (auto simp add: step_def wander_def renormalize_def Let_def split: prod.splits)

lemma bounce_keeps: "a_id (bounce w h a) = a_id a" "a_inside (bounce w h a) = a_inside a"
  by (simp_all add: bounce_def Let_def)

lemma alerts_of_append: "alerts_of k (al @ bl) = alerts_of k al @ alerts_of k bl"
  by (simp add: alerts_of_def)

lemma alerts_of_Nil: "alerts_of k [] = []"
  by (simp add: alerts_of_def)

lemma alerts_of_single: "alerts_of k [(i, ax, ay, kd)] = (if i = k then [kd] else [])"
  by (simp add: alerts_of_def)

lemma tick_animals_alerts:
  assumes "tick_animals st xs g al = (None, ys, g', al')" and "registry_ok xs"
  shows "registry_ok ys \<and> map fst ys = map fst xs
    \<and> list_all (\<lambda>(j, a). classify st (a_x a) (a_y a) = Inr (a_inside a)) ys
    \<and> alerts_of k al' = alerts_of k al
         @ transition (map_option a_inside (map_of xs k)) (map_option a_inside (map_of ys k))"
  using assms
proof (induction xs arbitrary: g al ys g' al')
  case Nil
  then show ?case by (simp add: registry_ok_def)
next
  case (Cons p xs)
  obtain i a where p: "p = (i, a)" by (cases p)
  obtain a1 g1 where s: "step a g = (a1, g1)" by (cases "step a g")
  define a2 where "a2 = bounce (canvas_width st) (canvas_height st) a1"
  from Cons.prems(1) obtain ins where c: "classify st (a_x a2) (a_y a2) = Inr ins"
    by (auto simp add: p s a2_def Let_def split: sum.splits)
  define al1 where "al1 = al @ (if ins = a_inside a2 then []
            else [(a_id a2, py_int (a_x a2), py_int (a_y a2), if ins then RE_ENTERED else LEFT)])"
  obtain e rest1 g2 al2 where r: "tick_animals st xs g1 al1 = (e, rest1, g2, al2)"
    by (cases "tick_animals st xs g1 al1")
  from Cons.prems(1) have res: "e = None" "ys = (i, a2\<lparr>a_inside := ins\<rparr>) # rest1" "al' = al2"
    by (simp_all add: p s a2_def [symmetric] c crossing_eq al1_def [symmetric] r Let_def)
  have ok: "registry_ok xs" and ia: "a_id a = i" and fresh: "i \<notin> fst ` set xs"
    using Cons.prems(2) by (simp_all add: registry_ok_def p)
  have keep: "a_id a2 = i" "a_inside a2 = a_inside a"
    using step_keeps [OF s] ia by (simp_all add: a2_def bounce_keeps)
  have IH: "registry_ok rest1 \<and> map fst rest1 = map fst xs
    \<and> list_all (\<lambda>(j, a). classify st (a_x a) (a_y a) = Inr (a_inside a)) rest1
    \<and> alerts_of k al2 = alerts_of k al1
         @ transition (map_option a_inside (map_of xs k)) (map_option a_inside (map_of rest1 k))"
    using Cons.IH [OF r [unfolded res(1)] ok] .
  have fresh1: "i \<notin> fst ` set rest1"
    using fresh IH by (metis set_map)
  have none: "map_of xs i = None" "map_of rest1 i = None"
    using fresh fresh1 by (simp_all add: map_of_eq_None_iff)
  show ?case
  proof (cases "k = i")
    case True
    then show ?thesis
      using IH fresh1 none keep c
      by (auto simp add: res p registry_ok_def al1_def alerts_of_append alerts_of_single alerts_of_Nil)
  next
    case False
    then show ?thesis
      using IH fresh fresh1 keep c
      by (auto simp add: res p registry_ok_def al1_def alerts_of_append alerts_of_single alerts_of_Nil)
  qed
qed


lemma tick_loop_alerts:
  assumes "tick_loop st = (None, s)" and "registry_ok (animals st)"
  shows "registry_ok (animals s)
    \<and> list_all (\<lambda>(j, a). classify st (a_x a) (a_y a) = Inr (a_inside a)) (animals s)
    \<and> alerts_of k (alerts s) = alerts_of k (alerts st) @ transition (stored k st) (stored k s)"
proof -
  obtain e ys g' al' where t: "tick_animals st (animals st) (rng st) (alerts st) = (e, ys, g', al')"
    by (cases "tick_animals st (animals st) (rng st) (alerts st)")
  from assms(1) have e: "e = None" and a: "animals s = ys" and l: "alerts s = al'"
    by (auto simp add: tick_loop_def t Let_def update_counts_def split: option.splits if_splits)
  show ?thesis
    using tick_animals_alerts [OF t [unfolded e] assms(2), of k]
    by (simp add: a l stored_def)
qed

lemma tick_chain_append:
  "tick_chain st (xs @ ys) = (tick_chain st xs \<and> tick_chain (last (st # xs)) ys)"
  by (induction xs arbitrary: st) auto

lemma tick_chain_steady:
  assumes "tick_chain st sts" and "registry_ok (animals st)" and "stored k st = Some b"
    and "map (stored k) sts = replicate n (Some b)"
  shows "registry_ok (animals (last (st # sts)))
    \<and> alerts_of k (alerts (last (st # sts))) = alerts_of k (alerts st)
    \<and> stored k (last (st # sts)) = Some b"
  using assms
proof (induction sts arbitrary: st n)
  case Nil
  then show ?case by simp
next
  case (Cons s sts)
  from Cons.prems(4) obtain n' where n: "n = Suc n'" and h: "stored k s = Some b"
    and t: "map (stored k) sts = replicate n' (Some b)"
    by (cases n) auto
  from Cons.prems(1) have s: "tick_loop st = (None, s)" and c: "tick_chain s sts"
    by simp_all
  have one: "registry_ok (animals s)" "alerts_of k (alerts s) = alerts_of k (alerts st)"
    using tick_loop_alerts [OF s Cons.prems(2), of k] Cons.prems(3) h by simp_all
  show ?case
    using Cons.IH [OF c one(1) h t] one(2) by simp
qed

text \<open>
  C2. The crossing detector is edge-triggered. After a tick that runs to its end, the
  stored state of every entity is the containment value the tick has computed at the
  entity's new position, and the alerts the tick has appended for an entity are given by
  the change of its stored state: none where the new value equals the stored one, one
  \<open>LEFT\<close> or one \<open>RE_ENTERED\<close> otherwise. So over a run of ticks in which an entity
  that is stored inside is found outside in five ticks in a row and inside in the ticks
  after them, the alerts appended for it are one \<open>LEFT\<close> and one \<open>RE_ENTERED\<close>, and no
  more. Every entity is registered under its own id and once, as the registry has it.
\<close>

theorem C2_edge_triggered:
  assumes "registry_ok (animals st)"
  shows "(tick_loop st = (None, s) \<longrightarrow>
           list_all (\<lambda>(j, a). classify st (a_x a) (a_y a) = Inr (a_inside a)) (animals s)
           \<and> alerts_of k (alerts s) = alerts_of k (alerts st) @ transition (stored k st) (stored k s)
           \<and> (stored k s = stored k st \<longrightarrow> alerts_of k (alerts s) = alerts_of k (alerts st)))
       \<and> (tick_chain st sts \<and> stored k st = Some True
            \<and> map (stored k) sts = replicate 5 (Some False) @ replicate (Suc m) (Some True) \<longrightarrow>
           alerts_of k (alerts (last sts)) = alerts_of k (alerts st) @ [LEFT, RE_ENTERED])"
proof (intro conjI impI)
  assume t: "tick_loop st = (None, s)"
  note one = tick_loop_alerts [OF t assms, of k]
  show "list_all (\<lambda>(j, a). classify st (a_x a) (a_y a) = Inr (a_inside a)) (animals s)"
    using one by simp
  show "alerts_of k (alerts s) = alerts_of k (alerts st) @ transition (stored k st) (stored k s)"
    using one by simp
  show "alerts_of k (alerts s) = alerts_of k (alerts st)" if "stored k s = stored k st"
    using one that by (cases "stored k st") simp_all
next
  assume h: "tick_chain st sts \<and> stored k st = Some True
            \<and> map (stored k) sts = replicate 5 (Some False) @ replicate (Suc m) (Some True)"
  then obtain out home where sts: "sts = out @ home"
    and o: "map (stored k) out = replicate 5 (Some False)"
    and b: "map (stored k) home = replicate (Suc m) (Some True)"
    by (auto simp add: map_eq_append_conv)
  from o obtain s1 out' where out: "out = s1 # out'" and s1: "stored k s1 = Some False"
    and o': "map (stored k) out' = replicate 4 (Some False)"
    by (cases out) (auto simp add: numeral_eq_Suc)
  from b obtain s6 home' where home: "home = s6 # home'" and s6: "stored k s6 = Some True"
    and b': "map (stored k) home' = replicate m (Some True)"
    by (cases home) auto
  let ?s5 = "last (s1 # out')"
  from h have ch: "tick_loop st = (None, s1)" "tick_chain s1 out'"
    "tick_loop ?s5 = (None, s6)" "tick_chain s6 home'"
    by (simp_all add: sts out home tick_chain_append)
  have a1: "registry_ok (animals s1)" "alerts_of k (alerts s1) = alerts_of k (alerts st) @ [LEFT]"
    using tick_loop_alerts [OF ch(1) assms, of k] h s1 by simp_all
  have a5: "registry_ok (animals ?s5)" "alerts_of k (alerts ?s5) = alerts_of k (alerts s1)"
    "stored k ?s5 = Some False"
    using tick_chain_steady [OF ch(2) a1(1) s1 o'] by simp_all
  have a6: "registry_ok (animals s6)" "alerts_of k (alerts s6) = alerts_of k (alerts ?s5) @ [RE_ENTERED]"
    using tick_loop_alerts [OF ch(3) a5(1), of k] a5(3) s6 by simp_all
  have a7: "alerts_of k (alerts (last (s6 # home'))) = alerts_of k (alerts s6)"
    using tick_chain_steady [OF ch(4) a6(1) s6 b'] by simp
  have "last sts = last (s6 # home')"
    by (simp add: sts home)
  then show "alerts_of k (alerts (last sts)) = alerts_of k (alerts st) @ [LEFT, RE_ENTERED]"
    using a1(2) a5(2) a6(2) a7 by simp
qed

lemma pen_registry_ok: "registry_ok (animals (pen px vx ins al))"
  by (simp add: registry_ok_def pen_def walker_def)

lemma pen_stored: "stored 1 (pen px vx ins al) = Some ins"
  by (simp add: stored_def pen_def walker_def)

lemma pen_run_chain: "tick_chain (pen 190 1 True []) pen_run"
  by (simp add: pen_run_def pen_tick_1 pen_tick_2 pen_tick_3 pen_tick_4 pen_tick_5
      pen_tick_6 [of "[(1, 192, 150, LEFT)]", simplified] pen_tick_7)

lemma pen_run_stored:
  "map (stored 1) pen_run = replicate 5 (Some False) @ replicate (Suc 1) (Some True)"
  by (simp add: pen_run_def pen_stored numeral_eq_Suc)

theorem C2_edge_triggered_witness:
  "registry_ok (animals (pen 190 1 True []))
   \<and> tick_chain (pen 190 1 True []) pen_run
   \<and> stored 1 (pen 190 1 True []) = Some True
   \<and> map (stored 1) pen_run = replicate 5 (Some False) @ replicate (Suc 1) (Some True)
   \<and> alerts_of 1 (alerts (last pen_run)) = alerts_of 1 (alerts (pen 190 1 True [])) @ [LEFT, RE_ENTERED]
   \<and> registry_ok (animals (pen 192 2 False []))
   \<and> tick_loop (pen 192 2 False []) = (None, pen 194 2 False [])
   \<and> stored 1 (pen 194 2 False []) = stored 1 (pen 192 2 False [])
   \<and> alerts_of 1 (alerts (pen 194 2 False [])) = alerts_of 1 (alerts (pen 192 2 False []))"
  using C2_edge_triggered [where st = "pen 190 1 True []" and sts = pen_run and k = 1 and m = 1]
    C2_edge_triggered [where st = "pen 192 2 False []" and s = "pen 194 2 False []" and k = 1]
    pen_registry_ok pen_run_chain pen_run_stored pen_tick_2 [of "[]"]
  by (simp add: pen_stored)

end
